theory Spec2Isabelle
  imports Main "HOL-Library.Word"
begin

unbundle bit_operations_syntax

section \<open>Bytes and JavaScript strings\<close>

text \<open>
  The streaming chat client (\<^verbatim>\<open>chat-frontend/ui/src/main.tsx\<close>, function
  \<^verbatim>\<open>sendMessage\<close>) reads the response body as chunks of bytes
  (\<^verbatim>\<open>Uint8Array\<close>), decodes them to a JavaScript string and cuts that string
  into lines. A JavaScript string is a sequence of 16-bit code units; string literals of
  the source are ASCII and are written through \<open>js\<close>.
\<close>

type_synonym byte = "8 word"
type_synonym code_unit = "16 word"
type_synonym jsstring = "code_unit list"

definition js :: "string \<Rightarrow> jsstring" where
  "js s = map (\<lambda>c. of_nat (of_char c)) s"

definition LF :: code_unit where
  "LF = 0x0A"

section \<open>The streaming text decoder\<close>

text \<open>
  \<^verbatim>\<open>new TextDecoder()\<close> is the platform's UTF-8 decoder in replacement mode. It is
  not code of the repository; it is modelled after the Encoding Standard: the UTF-8
  decoder's handler works byte by byte on the state below, an ill-formed sequence yields
  U+FFFD, and a byte that ends a sequence early is decoded again from the initial state.
\<close>

record utf8_decoder =
  code_point :: int
  bytes_seen :: nat
  bytes_needed :: nat
  lower_boundary :: byte
  upper_boundary :: byte

definition utf8_initial :: utf8_decoder where
  "utf8_initial =
     \<lparr>code_point = 0, bytes_seen = 0, bytes_needed = 0,
      lower_boundary = 0x80, upper_boundary = 0xBF\<rparr>"

text \<open>The handler when no continuation byte is awaited.\<close>

definition utf8_lead :: "utf8_decoder \<Rightarrow> byte \<Rightarrow> utf8_decoder \<times> int list" where
  "utf8_lead d b =
     (if b \<le> 0x7F then (d, [uint b])
      else if 0xC2 \<le> b \<and> b \<le> 0xDF then
        (d\<lparr>bytes_needed := 1, code_point := uint (b AND 0x1F)\<rparr>, [])
      else if 0xE0 \<le> b \<and> b \<le> 0xEF then
        (d\<lparr>lower_boundary := (if b = 0xE0 then 0xA0 else lower_boundary d),
           upper_boundary := (if b = 0xED then 0x9F else upper_boundary d),
           bytes_needed := 2, code_point := uint (b AND 0xF)\<rparr>, [])
      else if 0xF0 \<le> b \<and> b \<le> 0xF4 then
        (d\<lparr>lower_boundary := (if b = 0xF0 then 0x90 else lower_boundary d),
           upper_boundary := (if b = 0xF4 then 0x8F else upper_boundary d),
           bytes_needed := 3, code_point := uint (b AND 0x7)\<rparr>, [])
      else (d, [0xFFFD]))"

definition utf8_handler :: "utf8_decoder \<Rightarrow> byte \<Rightarrow> utf8_decoder \<times> int list" where
  "utf8_handler d b =
     (if bytes_needed d = 0 then utf8_lead d b
      else if \<not> (lower_boundary d \<le> b \<and> b \<le> upper_boundary d) then
        (case utf8_lead utf8_initial b of (d', out) \<Rightarrow> (d', 0xFFFD # out))
      else
        (let d1 = d\<lparr>lower_boundary := 0x80, upper_boundary := 0xBF,
                     code_point := push_bit 6 (code_point d) OR uint (b AND 0x3F),
                     bytes_seen := bytes_seen d + 1\<rparr>
         in if bytes_seen d1 \<noteq> bytes_needed d1 then (d1, [])
            else (utf8_initial, [code_point d1])))"

fun utf8_run :: "utf8_decoder \<Rightarrow> byte list \<Rightarrow> utf8_decoder \<times> int list" where
  "utf8_run d [] = (d, [])"
| "utf8_run d (b # bs) =
     (case utf8_handler d b of (d1, out1) \<Rightarrow>
        (case utf8_run d1 bs of (d2, out2) \<Rightarrow> (d2, out1 @ out2)))"

text \<open>A scalar value as UTF-16 code units (a surrogate pair above U+FFFF).\<close>

definition utf16 :: "int \<Rightarrow> jsstring" where
  "utf16 cp =
     (if cp \<le> 0xFFFF then [of_int cp]
      else [of_int (0xD800 + (cp - 0x10000) div 0x400),
            of_int (0xDC00 + (cp - 0x10000) mod 0x400)])"

text \<open>
  Serialising the decoder's output drops one leading U+FEFF: the decoder is created with
  the default \<^verbatim>\<open>ignoreBOM = false\<close>. The flag \<open>BOM_seen\<close> is set by the first scalar
  value that is produced, whichever chunk completes it.
\<close>

fun serialize :: "bool \<Rightarrow> int list \<Rightarrow> bool \<times> jsstring" where
  "serialize seen [] = (seen, [])"
| "serialize seen (c # cs) =
     (if seen then (case serialize seen cs of (s, out) \<Rightarrow> (s, utf16 c @ out))
      else if c = 0xFEFF then serialize True cs
      else (case serialize True cs of (s, out) \<Rightarrow> (s, utf16 c @ out)))"

record TextDecoder =
  decoder :: utf8_decoder
  BOM_seen :: bool
  do_not_flush :: bool

definition new_TextDecoder :: TextDecoder where
  "new_TextDecoder = \<lparr>decoder = utf8_initial, BOM_seen = False, do_not_flush = False\<rparr>"

text \<open>
  \<^verbatim>\<open>decoder.decode(value, { stream: true })\<close>: a call that follows a streaming call
  keeps the decoder's state; the bytes of an unfinished sequence stay in the state and no
  end of queue is processed.
\<close>

definition decode_stream :: "TextDecoder \<Rightarrow> byte list \<Rightarrow> TextDecoder \<times> jsstring" where
  "decode_stream td v =
     (let td0 = (if do_not_flush td then td
                 else td\<lparr>decoder := utf8_initial, BOM_seen := False\<rparr>)
      in case utf8_run (decoder td0) v of (d, out) \<Rightarrow>
           (case serialize (BOM_seen td0) out of (seen, text) \<Rightarrow>
              (\<lparr>decoder = d, BOM_seen = seen, do_not_flush = True\<rparr>, text)))"

section \<open>String operations used by the loop\<close>

text \<open>\<^verbatim>\<open>String.prototype.trim\<close> strips WhiteSpace and LineTerminator code points.\<close>

definition is_trim_space :: "code_unit \<Rightarrow> bool" where
  "is_trim_space c \<longleftrightarrow>
     c = 0x09 \<or> c = 0x0A \<or> c = 0x0B \<or> c = 0x0C \<or> c = 0x0D \<or> c = 0x20 \<or>
     c = 0xA0 \<or> c = 0x1680 \<or> (0x2000 \<le> c \<and> c \<le> 0x200A) \<or>
     c = 0x2028 \<or> c = 0x2029 \<or> c = 0x202F \<or> c = 0x205F \<or> c = 0x3000 \<or> c = 0xFEFF"

definition trim :: "jsstring \<Rightarrow> jsstring" where
  "trim s = rev (dropWhile is_trim_space (rev (dropWhile is_trim_space s)))"

text \<open>\<^verbatim>\<open>buffer.indexOf('\n')\<close>: the first position of the code unit, or -1.\<close>

fun indexOf :: "jsstring \<Rightarrow> code_unit \<Rightarrow> int" where
  "indexOf [] c = -1"
| "indexOf (x # xs) c =
     (if x = c then 0 else (let i = indexOf xs c in if i < 0 then -1 else i + 1))"

text \<open>\<^verbatim>\<open>s.slice(0, idx)\<close> and \<^verbatim>\<open>s.slice(idx + 1)\<close> for \<open>0 \<le> idx\<close>.\<close>

definition slice_to :: "jsstring \<Rightarrow> int \<Rightarrow> jsstring" where
  "slice_to s idx = take (nat idx) s"

definition slice_from :: "jsstring \<Rightarrow> int \<Rightarrow> jsstring" where
  "slice_from s start = drop (nat start) s"

lemma indexOf_less: "0 \<le> indexOf s c \<Longrightarrow> nat (indexOf s c) < length s"
  by (induction s) (auto simp: Let_def split: if_splits)

section \<open>The line loop\<close>

text \<open>
  The inner loop of \<^verbatim>\<open>sendMessage\<close>:
  \<^verbatim>\<open>while ((idx = buffer.indexOf('\n')) >= 0) { line = buffer.slice(0, idx).trim();
  buffer = buffer.slice(idx + 1); if (!line) continue; ... }\<close>.
  What the body does with a line is the parameter \<open>h\<close>; the client runs it with its
  event handler, and running it with a handler that records its argument gives the lines
  the loop hands over.
\<close>

function drain :: "('s \<Rightarrow> jsstring \<Rightarrow> 's) \<Rightarrow> 's \<Rightarrow> jsstring \<Rightarrow> 's \<times> jsstring" where
  "drain h st buffer =
     (let idx = indexOf buffer LF in
      if idx \<ge> 0 then
        (let line = trim (slice_to buffer idx);
             buffer' = slice_from buffer (idx + 1)
         in if line = [] then drain h st buffer' else drain h (h st line) buffer')
      else (st, buffer))"
  by pat_completeness auto
termination
proof (relation "measure (\<lambda>(h, st, buffer). length buffer)")
  show "wf (measure (\<lambda>(h, st, buffer). length buffer))" by simp
next
  fix h :: "'s \<Rightarrow> jsstring \<Rightarrow> 's" and st :: 's and buffer :: jsstring and x xa xb
  assume "x = indexOf buffer LF" and "0 \<le> x" and "xb = slice_from buffer (x + 1)"
  then show "((h, st, xb), (h, st, buffer)) \<in> measure (\<lambda>(h, st, buffer). length buffer)"
    using indexOf_less [of buffer LF] by (simp add: slice_from_def)
next
  fix h :: "'s \<Rightarrow> jsstring \<Rightarrow> 's" and st :: 's and buffer :: jsstring and x xa xb
  assume "x = indexOf buffer LF" and "0 \<le> x" and "xa = trim (slice_to buffer x)"
    and "xb = slice_from buffer (x + 1)"
  then show "((h, h st xa, xb), (h, st, buffer)) \<in> measure (\<lambda>(h, st, buffer). length buffer)"
    using indexOf_less [of buffer LF] by (simp add: slice_from_def)
qed

declare drain.simps [simp del]

section \<open>JSON values\<close>

text \<open>
  \<^verbatim>\<open>JSON.parse\<close>, \<^verbatim>\<open>JSON.stringify\<close> and the string conversion of template
  literals are the platform's (ECMA-262); they are modelled here as far as the loop uses
  them. A number keeps the text it was written with: its value is a double, and how a
  double that is not a small integer prints is left to the parameter \<open>number_text\<close>.
\<close>

datatype json =
    JNull
  | JBool bool
  | JNumber jsstring
  | JString jsstring
  | JArray "json list"
  | JObject "(jsstring \<times> json) list"

subsection \<open>Tokens\<close>

datatype token =
    TLBrace | TRBrace | TLBracket | TRBracket | TColon | TComma
  | TString jsstring | TNumber jsstring | TTrue | TFalse | TNull

definition is_json_ws :: "code_unit \<Rightarrow> bool" where
  "is_json_ws c \<longleftrightarrow> c = 0x09 \<or> c = 0x0A \<or> c = 0x0D \<or> c = 0x20"

definition is_digit :: "code_unit \<Rightarrow> bool" where
  "is_digit c \<longleftrightarrow> 0x30 \<le> c \<and> c \<le> 0x39"

definition hex_value :: "code_unit \<Rightarrow> code_unit option" where
  "hex_value c =
     (if 0x30 \<le> c \<and> c \<le> 0x39 then Some (c - 0x30)
      else if 0x61 \<le> c \<and> c \<le> 0x66 then Some (c - 0x61 + 10)
      else if 0x41 \<le> c \<and> c \<le> 0x46 then Some (c - 0x41 + 10)
      else None)"

definition hex4 :: "code_unit \<Rightarrow> code_unit \<Rightarrow> code_unit \<Rightarrow> code_unit \<Rightarrow> code_unit option" where
  "hex4 a b c d =
     (case (hex_value a, hex_value b, hex_value c, hex_value d) of
        (Some x, Some y, Some z, Some w) \<Rightarrow> Some (((x * 16 + y) * 16 + z) * 16 + w)
      | _ \<Rightarrow> None)"

text \<open>The character after a backslash: one of \<^verbatim>\<open>" / \ b f n r t\<close>.\<close>

definition escape_char :: "code_unit \<Rightarrow> code_unit option" where
  "escape_char e =
     (if e = 0x22 then Some 0x22 else if e = 0x2F then Some 0x2F
      else if e = 0x5C then Some 0x5C else if e = 0x62 then Some 0x08
      else if e = 0x66 then Some 0x0C else if e = 0x6E then Some 0x0A
      else if e = 0x72 then Some 0x0D else if e = 0x74 then Some 0x09
      else None)"

text \<open>
  The characters of a string after its opening quote, up to the closing one: the value
  of the string and the rest of the input. No control character below U+0020 may stand
  unescaped.
\<close>

fun lex_string :: "jsstring \<Rightarrow> (jsstring \<times> jsstring) option" where
  "lex_string [] = None"
| "lex_string (c # cs) =
     (if c = 0x22 then Some ([], cs)
      else if c = 0x5C then
        (case cs of
           [] \<Rightarrow> None
         | e # cs1 \<Rightarrow>
             if e = 0x75 then
               (case cs1 of
                  h1 # h2 # h3 # h4 # cs2 \<Rightarrow>
                    (case hex4 h1 h2 h3 h4 of
                       None \<Rightarrow> None
                     | Some u \<Rightarrow> map_option (\<lambda>(s, r). (u # s, r)) (lex_string cs2))
                | _ \<Rightarrow> None)
             else
               (case escape_char e of
                  None \<Rightarrow> None
                | Some x \<Rightarrow> map_option (\<lambda>(s, r). (x # s, r)) (lex_string cs1)))
      else if c < 0x20 then None
      else map_option (\<lambda>(s, r). (c # s, r)) (lex_string cs))"

text \<open>
  A number: \<^verbatim>\<open>-? (0 | [1-9][0-9]*) (. [0-9]+)? ([eE] [+-]? [0-9]+)?\<close>, the longest
  such prefix; what follows it is the next token's business.
\<close>

definition lex_fraction :: "jsstring \<Rightarrow> jsstring \<times> jsstring" where
  "lex_fraction s =
     (case s of
        p # q # r \<Rightarrow>
          if p = 0x2E \<and> is_digit q
          then (p # q # takeWhile is_digit r, dropWhile is_digit r) else ([], s)
      | _ \<Rightarrow> ([], s))"

definition lex_exponent :: "jsstring \<Rightarrow> jsstring \<times> jsstring" where
  "lex_exponent s =
     (case s of
        e # q # r \<Rightarrow>
          if e = 0x65 \<or> e = 0x45 then
            (if is_digit q then (e # q # takeWhile is_digit r, dropWhile is_digit r)
             else if q = 0x2B \<or> q = 0x2D then
               (case r of
                  d # r1 \<Rightarrow>
                    if is_digit d
                    then (e # q # d # takeWhile is_digit r1, dropWhile is_digit r1)
                    else ([], s)
                | [] \<Rightarrow> ([], s))
             else ([], s))
          else ([], s)
      | _ \<Rightarrow> ([], s))"

definition lex_unsigned :: "jsstring \<Rightarrow> (jsstring \<times> jsstring) option" where
  "lex_unsigned s =
     (case s of
        [] \<Rightarrow> None
      | d # r \<Rightarrow>
          if \<not> is_digit d then None
          else
            (let ip = (if d = 0x30 then [d] else d # takeWhile is_digit r);
                 r1 = (if d = 0x30 then r else dropWhile is_digit r)
             in case lex_fraction r1 of (fr, r2) \<Rightarrow>
                  (case lex_exponent r2 of (ex, r3) \<Rightarrow> Some (ip @ fr @ ex, r3))))"

definition lex_number :: "jsstring \<Rightarrow> (jsstring \<times> jsstring) option" where
  "lex_number s =
     (case s of
        [] \<Rightarrow> None
      | c # cs \<Rightarrow>
          if c = 0x2D then map_option (\<lambda>(n, r). (c # n, r)) (lex_unsigned cs)
          else lex_unsigned s)"

lemma lex_string_length: "lex_string s = Some (v, r) \<Longrightarrow> length r < length s"
proof (induction s arbitrary: v r rule: lex_string.induct)
  case 1
  then show ?case by simp
next
  case (2 c cs)
  then show ?case
    by (auto split: if_splits list.splits option.splits) fastforce+
qed

lemma lex_fraction_length: "length (snd (lex_fraction s)) \<le> length s"
  by (auto simp: lex_fraction_def split: list.splits
      intro: le_trans [OF length_dropWhile_le])

lemma lex_exponent_length: "length (snd (lex_exponent s)) \<le> length s"
  by (auto simp: lex_exponent_def split: list.splits
      intro: le_trans [OF length_dropWhile_le])

lemma lex_unsigned_length: "lex_unsigned s = Some (v, r) \<Longrightarrow> length r < length s"
proof -
  assume a: "lex_unsigned s = Some (v, r)"
  then obtain d t where s: "s = d # t" by (cases s) (auto simp: lex_unsigned_def)
  define r1 where "r1 = (if d = 0x30 then t else dropWhile is_digit t)"
  have l1: "length r1 \<le> length t" by (simp add: r1_def length_dropWhile_le)
  from a s have "r = snd (lex_exponent (snd (lex_fraction r1)))"
    by (auto simp: lex_unsigned_def Let_def r1_def split: if_splits prod.splits)
  then have "length r \<le> length r1"
    using lex_exponent_length [of "snd (lex_fraction r1)"] lex_fraction_length [of r1]
    by simp
  with l1 s show ?thesis by simp
qed

lemma lex_number_length: "lex_number s = Some (v, r) \<Longrightarrow> length r < length s"
  by (cases s) (auto simp: lex_number_def split: if_splits dest!: lex_unsigned_length)

function tokenize :: "jsstring \<Rightarrow> token list option" where
  "tokenize s =
     (case s of
        [] \<Rightarrow> Some []
      | c # cs \<Rightarrow>
          if is_json_ws c then tokenize cs
          else if c = 0x7B then map_option (Cons TLBrace) (tokenize cs)
          else if c = 0x7D then map_option (Cons TRBrace) (tokenize cs)
          else if c = 0x5B then map_option (Cons TLBracket) (tokenize cs)
          else if c = 0x5D then map_option (Cons TRBracket) (tokenize cs)
          else if c = 0x3A then map_option (Cons TColon) (tokenize cs)
          else if c = 0x2C then map_option (Cons TComma) (tokenize cs)
          else if c = 0x22 then
            (case lex_string cs of
               None \<Rightarrow> None
             | Some (v, r) \<Rightarrow> map_option (Cons (TString v)) (tokenize r))
          else if c = 0x2D \<or> is_digit c then
            (case lex_number s of
               None \<Rightarrow> None
             | Some (n, r) \<Rightarrow> map_option (Cons (TNumber n)) (tokenize r))
          else if take 4 s = js ''true'' then map_option (Cons TTrue) (tokenize (drop 4 s))
          else if take 5 s = js ''false'' then map_option (Cons TFalse) (tokenize (drop 5 s))
          else if take 4 s = js ''null'' then map_option (Cons TNull) (tokenize (drop 4 s))
          else None)"
  by pat_completeness auto
termination
  by (relation "measure length")
    (auto dest!: lex_string_length lex_number_length)

declare tokenize.simps [simp del]

subsection \<open>Objects\<close>

text \<open>
  An object lists its properties in the order in which JavaScript enumerates them: the
  keys that are array indices (canonical decimal numbers below \<open>2^32 - 1\<close>) in ascending
  order, then the other keys in the order of their creation. A key that is defined
  again keeps its place and takes the new value.
\<close>

definition digits_value :: "jsstring \<Rightarrow> int" where
  "digits_value k = foldl (\<lambda>a c. 10 * a + uint (c - 0x30)) 0 k"

definition array_index :: "jsstring \<Rightarrow> int option" where
  "array_index k =
     (case k of
        [] \<Rightarrow> None
      | c # cs \<Rightarrow>
          if \<not> list_all is_digit k \<or> (c = 0x30 \<and> cs \<noteq> []) \<or> length k > 10 then None
          else if digits_value k < 2 ^ 32 - 1 then Some (digits_value k) else None)"

fun insert_index :: "int \<Rightarrow> jsstring \<Rightarrow> json \<Rightarrow> (jsstring \<times> json) list \<Rightarrow> (jsstring \<times> json) list" where
  "insert_index i k v [] = [(k, v)]"
| "insert_index i k v ((k', v') # ms) =
     (case array_index k' of
        Some j \<Rightarrow> if j < i then (k', v') # insert_index i k v ms else (k, v) # (k', v') # ms
      | None \<Rightarrow> (k, v) # (k', v') # ms)"

definition obj_put :: "(jsstring \<times> json) list \<Rightarrow> jsstring \<Rightarrow> json \<Rightarrow> (jsstring \<times> json) list" where
  "obj_put ms k v =
     (if map_of ms k \<noteq> None then map (\<lambda>(k', v'). if k' = k then (k', v) else (k', v')) ms
      else case array_index k of
             Some i \<Rightarrow> insert_index i k v ms
           | None \<Rightarrow> ms @ [(k, v)])"

subsection \<open>The parser\<close>

text \<open>
  The grammar of JSON texts over the tokens, as a pushdown automaton: the stack holds the
  arrays and objects that are open, with the elements and members read so far.
\<close>

datatype frame =
    FArray "json list"
  | FObject "(jsstring \<times> json) list" "jsstring option"

datatype expect =
    EValue | EValueOrEnd | EKey | EKeyOrEnd | EColon | ECommaOrEnd | EDone json

text \<open>A value is complete: it is the text's value, an element, or a member's value.\<close>

fun push_value :: "json \<Rightarrow> frame list \<Rightarrow> (expect \<times> frame list) option" where
  "push_value v [] = Some (EDone v, [])"
| "push_value v (FArray els # stack) = Some (ECommaOrEnd, FArray (els @ [v]) # stack)"
| "push_value v (FObject ms (Some k) # stack) =
     Some (ECommaOrEnd, FObject (obj_put ms k v) None # stack)"
| "push_value v (FObject ms None # stack) = None"

fun parse_value_token :: "token \<Rightarrow> frame list \<Rightarrow> (expect \<times> frame list) option" where
  "parse_value_token TLBracket stack = Some (EValueOrEnd, FArray [] # stack)"
| "parse_value_token TLBrace stack = Some (EKeyOrEnd, FObject [] None # stack)"
| "parse_value_token (TString s) stack = push_value (JString s) stack"
| "parse_value_token (TNumber n) stack = push_value (JNumber n) stack"
| "parse_value_token TTrue stack = push_value (JBool True) stack"
| "parse_value_token TFalse stack = push_value (JBool False) stack"
| "parse_value_token TNull stack = push_value JNull stack"
| "parse_value_token _ stack = None"

fun close_frame :: "token \<Rightarrow> frame list \<Rightarrow> (expect \<times> frame list) option" where
  "close_frame TRBracket (FArray els # stack) = push_value (JArray els) stack"
| "close_frame TRBrace (FObject ms None # stack) = push_value (JObject ms) stack"
| "close_frame _ _ = None"

fun parse_step :: "expect \<Rightarrow> frame list \<Rightarrow> token \<Rightarrow> (expect \<times> frame list) option" where
  "parse_step EValue stack t = parse_value_token t stack"
| "parse_step EValueOrEnd stack t =
     (if t = TRBracket then close_frame t stack else parse_value_token t stack)"
| "parse_step EKey (FObject ms None # stack) (TString k) =
     Some (EColon, FObject ms (Some k) # stack)"
| "parse_step EKey _ _ = None"
| "parse_step EKeyOrEnd (FObject ms None # stack) (TString k) =
     Some (EColon, FObject ms (Some k) # stack)"
| "parse_step EKeyOrEnd stack t = (if t = TRBrace then close_frame t stack else None)"
| "parse_step EColon stack t = (if t = TColon then Some (EValue, stack) else None)"
| "parse_step ECommaOrEnd (FArray els # stack) TComma = Some (EValue, FArray els # stack)"
| "parse_step ECommaOrEnd (FObject ms None # stack) TComma =
     Some (EKey, FObject ms None # stack)"
| "parse_step ECommaOrEnd stack t = close_frame t stack"
| "parse_step (EDone v) stack t = None"

fun parse_tokens :: "expect \<Rightarrow> frame list \<Rightarrow> token list \<Rightarrow> json option" where
  "parse_tokens e stack [] = (case e of EDone v \<Rightarrow> Some v | _ \<Rightarrow> None)"
| "parse_tokens e stack (t # ts) =
     (case parse_step e stack t of
        None \<Rightarrow> None
      | Some (e', stack') \<Rightarrow> parse_tokens e' stack' ts)"

text \<open>\<^verbatim>\<open>JSON.parse(line)\<close>; \<open>None\<close> is the SyntaxError it throws.\<close>

definition JSON_parse :: "jsstring \<Rightarrow> json option" where
  "JSON_parse text =
     (case tokenize text of None \<Rightarrow> None | Some ts \<Rightarrow> parse_tokens EValue [] ts)"

subsection \<open>Numbers as text\<close>

text \<open>
  \<open>number_text\<close> gives, for the text of a JSON number, what \<^verbatim>\<open>Number.prototype.toString\<close>
  prints for its double, and \<open>None\<close> when the double is infinite. An integer of at most
  15 digits is a double exactly and prints as its digits (and \<^verbatim>\<open>-0\<close> as \<^verbatim>\<open>0\<close>);
  only the other numbers are left to the parameter.
\<close>

type_synonym number_text = "jsstring \<Rightarrow> jsstring option"

definition Number_toString :: "number_text \<Rightarrow> jsstring \<Rightarrow> jsstring option" where
  "Number_toString nt n =
     (let ds = (case n of c # cs \<Rightarrow> if c = 0x2D then cs else n | [] \<Rightarrow> n) in
      if list_all is_digit ds \<and> length ds \<le> 15
      then Some (if list_all (\<lambda>c. c = 0x30) ds then js ''0'' else n)
      else nt n)"

subsection \<open>Serialisation\<close>

definition hex_digit :: "code_unit \<Rightarrow> code_unit" where
  "hex_digit x = (if x < 10 then 0x30 + x else 0x61 + (x - 10))"

text \<open>\<^verbatim>\<open>\uXXXX\<close> with lower-case hexadecimal digits.\<close>

definition UnicodeEscape :: "code_unit \<Rightarrow> jsstring" where
  "UnicodeEscape c =
     [0x5C, 0x75, hex_digit (drop_bit 12 c AND 0xF), hex_digit (drop_bit 8 c AND 0xF),
      hex_digit (drop_bit 4 c AND 0xF), hex_digit (c AND 0xF)]"

definition is_leading_surrogate :: "code_unit \<Rightarrow> bool" where
  "is_leading_surrogate c \<longleftrightarrow> 0xD800 \<le> c \<and> c \<le> 0xDBFF"

definition is_trailing_surrogate :: "code_unit \<Rightarrow> bool" where
  "is_trailing_surrogate c \<longleftrightarrow> 0xDC00 \<le> c \<and> c \<le> 0xDFFF"

definition quote_unit :: "code_unit \<Rightarrow> jsstring" where
  "quote_unit c =
     (if c = 0x08 then [0x5C, 0x62] else if c = 0x09 then [0x5C, 0x74]
      else if c = 0x0A then [0x5C, 0x6E] else if c = 0x0C then [0x5C, 0x66]
      else if c = 0x0D then [0x5C, 0x72] else if c = 0x22 then [0x5C, 0x22]
      else if c = 0x5C then [0x5C, 0x5C]
      else if c < 0x20 \<or> is_leading_surrogate c \<or> is_trailing_surrogate c then UnicodeEscape c
      else [c])"

text \<open>The string is read by code points: a surrogate pair passes, a lone surrogate is escaped.\<close>

fun quote_units :: "jsstring \<Rightarrow> jsstring" where
  "quote_units [] = []"
| "quote_units [c] = quote_unit c"
| "quote_units (c # d # cs) =
     (if is_leading_surrogate c \<and> is_trailing_surrogate d then c # d # quote_units cs
      else quote_unit c @ quote_units (d # cs))"

definition QuoteJSONString :: "jsstring \<Rightarrow> jsstring" where
  "QuoteJSONString s = 0x22 # quote_units s @ [0x22]"

fun join :: "jsstring \<Rightarrow> jsstring list \<Rightarrow> jsstring" where
  "join sep [] = []"
| "join sep [x] = x"
| "join sep (x # y # ys) = x @ sep @ join sep (y # ys)"

text \<open>
  \<^verbatim>\<open>JSON.stringify(value)\<close> of a value that \<^verbatim>\<open>JSON.parse\<close> produced: no gap, the
  properties in enumeration order, a number that is not finite as \<^verbatim>\<open>null\<close>.
\<close>

fun JSON_stringify :: "number_text \<Rightarrow> json \<Rightarrow> jsstring" where
  "JSON_stringify nt JNull = js ''null''"
| "JSON_stringify nt (JBool b) = (if b then js ''true'' else js ''false'')"
| "JSON_stringify nt (JNumber n) =
     (case Number_toString nt n of Some t \<Rightarrow> t | None \<Rightarrow> js ''null'')"
| "JSON_stringify nt (JString s) = QuoteJSONString s"
| "JSON_stringify nt (JArray xs) =
     js ''['' @ join (js '','') (map (JSON_stringify nt) xs) @ js '']''"
| "JSON_stringify nt (JObject ms) =
     js ''{'' @
     join (js '','')
       (map (\<lambda>m. QuoteJSONString (fst m) @ js '':'' @ JSON_stringify nt (snd m)) ms) @
     js ''}''"

subsection \<open>Conversion to a string\<close>

text \<open>
  \<^verbatim>\<open>ToString\<close>, which a template literal applies to each \<^verbatim>\<open>${...}\<close>. The argument is
  \<open>None\<close> for \<^verbatim>\<open>undefined\<close>; the result is \<open>None\<close> when a TypeError is thrown: an
  object converts through \<^verbatim>\<open>Object.prototype.toString\<close> unless it has a property
  \<^verbatim>\<open>toString\<close> of its own, which is no function, and then no conversion is left. An array
  joins its elements with commas, \<^verbatim>\<open>null\<close> as the empty string.
\<close>

fun ToString_value :: "number_text \<Rightarrow> json \<Rightarrow> jsstring option" where
  "ToString_value nt JNull = Some (js ''null'')"
| "ToString_value nt (JBool b) = Some (if b then js ''true'' else js ''false'')"
| "ToString_value nt (JNumber n) =
     Some (case Number_toString nt n of
             Some t \<Rightarrow> t
           | None \<Rightarrow> (if take 1 n = js ''-'' then js ''-Infinity'' else js ''Infinity''))"
| "ToString_value nt (JString s) = Some s"
| "ToString_value nt (JArray xs) =
     map_option (join (js '',''))
       (those (map (\<lambda>x. if x = JNull then Some [] else ToString_value nt x) xs))"
| "ToString_value nt (JObject ms) =
     (if map_of ms (js ''toString'') = None then Some (js ''[object Object]'') else None)"

definition ToString :: "number_text \<Rightarrow> json option \<Rightarrow> jsstring option" where
  "ToString nt v = (case v of None \<Rightarrow> Some (js ''undefined'') | Some x \<Rightarrow> ToString_value nt x)"

section \<open>The client's state\<close>

text \<open>
  The React state of \<^verbatim>\<open>App\<close> that \<^verbatim>\<open>sendMessage\<close> writes: the transcript
  \<^verbatim>\<open>messages\<close>, the text field \<^verbatim>\<open>input\<close>, the flag \<^verbatim>\<open>loading\<close> and the status
  \<^verbatim>\<open>current\<close>. The status is declared a string, but \<^verbatim>\<open>setCurrent(evt.stage)\<close>
  stores whatever the event carries: it is a JSON value, or \<open>None\<close> for
  \<^verbatim>\<open>undefined\<close>. \<open>console\<close> collects the lines that \<^verbatim>\<open>console.error\<close> reports.

  The fields hold the state as the calls of the setters define it. A setter that is
  given a function does not run it: React runs it when it renders. \<open>render_error\<close>
  records that such a function threw there; no \<^verbatim>\<open>try\<close> of \<^verbatim>\<open>sendMessage\<close> sees
  that exception, React then unmounts the application, and what the other fields hold
  is no longer shown.
\<close>

datatype role = System | User | Assistant

record ChatMessage =
  role :: role
  content :: jsstring

record app_state =
  messages :: "ChatMessage list"
  input :: jsstring
  loading :: bool
  current :: "json option"
  console :: "jsstring list"
  render_error :: bool

text \<open>
  \<^verbatim>\<open>setMessages(m => ...)\<close>: the new list is what the function returns for the
  current one; \<open>None\<close> is a function that throws. \<^verbatim>\<open>setCurrent(label)\<close> stores
  a value.
\<close>

definition setMessages ::
  "app_state \<Rightarrow> (ChatMessage list \<Rightarrow> ChatMessage list option) \<Rightarrow> app_state" where
  "setMessages st updater =
     (case updater (messages st) of
        Some ms \<Rightarrow> st\<lparr>messages := ms\<rparr>
      | None \<Rightarrow> st\<lparr>render_error := True\<rparr>)"

definition setCurrent :: "app_state \<Rightarrow> json option \<Rightarrow> app_state" where
  "setCurrent st label = st\<lparr>current := label\<rparr>"

section \<open>The event handler\<close>

text \<open>
  \<^verbatim>\<open>evt.type\<close>, \<^verbatim>\<open>evt.stage\<close>, \<^verbatim>\<open>evt.turn\<close>, \<^verbatim>\<open>evt.name\<close>, \<^verbatim>\<open>evt.message\<close>,
  \<^verbatim>\<open>evt.error\<close>: no prototype defines these names, so the value is the object's own
  property or \<^verbatim>\<open>undefined\<close>; a string, number, boolean or array has none of them.
  (\<^verbatim>\<open>null\<close> has no properties at all: see \<open>handle_event\<close>.)
\<close>

definition property :: "json \<Rightarrow> string \<Rightarrow> json option" where
  "property evt k = (case evt of JObject ms \<Rightarrow> map_of ms (js k) | _ \<Rightarrow> None)"

text \<open>\<^verbatim>\<open>v === 'literal'\<close>\<close>

definition is_text :: "json option \<Rightarrow> string \<Rightarrow> bool" where
  "is_text v s \<longleftrightarrow> v = Some (JString (js s))"

text \<open>
  The label of a \<^verbatim>\<open>stage\<close> event; the outer \<open>None\<close> is a TypeError thrown by the
  template literal.
\<close>

definition stage_label :: "number_text \<Rightarrow> json \<Rightarrow> json option option" where
  "stage_label nt evt =
     (if is_text (property evt ''stage'') ''registry_loaded''
      then Some (Some (JString (js ''Loaded tool registry'')))
      else if is_text (property evt ''stage'') ''model_invoked'' then
        (if property evt ''turn'' \<noteq> None then
           (case ToString nt (property evt ''turn'') of
              None \<Rightarrow> None
            | Some t \<Rightarrow>
                Some (Some (JString (js ''Invoking model'' @ js '' (turn '' @ t @ js '')''))))
         else Some (Some (JString (js ''Invoking model'' @ []))))
      else Some (property evt ''stage''))"

text \<open>
  The body of the \<^verbatim>\<open>try\<close> after \<^verbatim>\<open>JSON.parse\<close>: the chain of comparisons of
  \<^verbatim>\<open>evt.type\<close>. \<open>None\<close> is an exception that the \<^verbatim>\<open>catch\<close> of this
  \<^verbatim>\<open>try\<close> receives: reading a property of \<^verbatim>\<open>null\<close>, or the template literal of
  a \<^verbatim>\<open>stage\<close>, \<^verbatim>\<open>tool_call\<close> or \<^verbatim>\<open>tool_result\<close> event whose value has no
  string conversion; there the literal is the setter's argument and throws before the
  setter is called.

  For an \<^verbatim>\<open>error\<close> event the literal \<^verbatim>\<open>`Error: ${evt.error}`\<close> stands inside the
  function that is passed to \<^verbatim>\<open>setMessages\<close>: both setters are called for every
  such event, and a value without a string conversion throws when React runs the
  function, not here. For a \<^verbatim>\<open>final\<close> event the content is computed before the
  call and the function cannot throw.
\<close>

definition handle_event :: "number_text \<Rightarrow> app_state \<Rightarrow> json \<Rightarrow> app_state option" where
  "handle_event nt st evt =
     (if evt = JNull then None
      else if is_text (property evt ''type'') ''stage'' then
        (case stage_label nt evt of
           None \<Rightarrow> None
         | Some label \<Rightarrow> Some (setCurrent st label))
      else if is_text (property evt ''type'') ''tool_call'' then
        (case ToString nt (property evt ''name'') of
           None \<Rightarrow> None
         | Some n \<Rightarrow> Some (setCurrent st (Some (JString (js ''Calling '' @ n)))))
      else if is_text (property evt ''type'') ''tool_result'' then
        (case ToString nt (property evt ''name'') of
           None \<Rightarrow> None
         | Some n \<Rightarrow> Some (setCurrent st (Some (JString (n @ js '' done'')))))
      else if is_text (property evt ''type'') ''final'' then
        (let messageContent =
               (case property evt ''message'' of
                  Some (JString s) \<Rightarrow> Some s
                | Some v \<Rightarrow> Some (JSON_stringify nt v)
                | None \<Rightarrow> None);
             st1 = setMessages st
                     (\<lambda>m. Some (m @
                        [\<lparr>role = Assistant,
                          content = (case messageContent of None \<Rightarrow> [] | Some t \<Rightarrow> t)\<rparr>]))
         in Some (setCurrent st1 (Some (JString (js ''Completed'')))))
      else if is_text (property evt ''type'') ''error'' then
        (let st1 = setMessages st
                     (\<lambda>m. case ToString nt (property evt ''error'') of
                             None \<Rightarrow> None
                           | Some e \<Rightarrow>
                               Some (m @ [\<lparr>role = Assistant, content = js ''Error: '' @ e\<rparr>]))
         in Some (setCurrent st1 (Some (JString (js ''Error'')))))
      else Some st)"

text \<open>
  One non-empty line: \<^verbatim>\<open>try { evt = JSON.parse(line); ... } catch (e) { console.error(...) }\<close>.
\<close>

definition process_line :: "number_text \<Rightarrow> app_state \<Rightarrow> jsstring \<Rightarrow> app_state" where
  "process_line nt st line =
     (case JSON_parse line of
        None \<Rightarrow> st\<lparr>console := console st @ [line]\<rparr>
      | Some evt \<Rightarrow>
          (case handle_event nt st evt of
             None \<Rightarrow> st\<lparr>console := console st @ [line]\<rparr>
           | Some st' \<Rightarrow> st'))"

section \<open>The transport and the send cycle\<close>

text \<open>
  What \<^verbatim>\<open>fetch\<close> and the reader deliver is the input of a cycle. A thrown value is an
  \<^verbatim>\<open>Error\<close> with a name and a message. \<open>body\<close> is the sequence of results of
  \<^verbatim>\<open>reader.read()\<close>: chunks, then the end of the stream or a rejection.
\<close>

record js_error =
  name :: jsstring
  message :: jsstring

datatype body =
    Done
  | Value "byte list" body
  | Rejected js_error

datatype response =
    FetchRejected js_error
  | Response "body option"

text \<open>
  The outer loop: \<^verbatim>\<open>while (true) { {value, done} = await reader.read(); if (done) break;
  buffer += decoder.decode(value, {stream: true}); ... }\<close>. The result is the state and
  the exception that left the loop, if any.
\<close>

fun read_loop ::
  "('s \<Rightarrow> jsstring \<Rightarrow> 's) \<Rightarrow> 's \<Rightarrow> TextDecoder \<Rightarrow> jsstring \<Rightarrow> body \<Rightarrow> 's \<times> js_error option" where
  "read_loop h st td buffer Done = (st, None)"
| "read_loop h st td buffer (Rejected e) = (st, Some e)"
| "read_loop h st td buffer (Value v rest) =
     (case decode_stream td v of (td', text) \<Rightarrow>
        (case drain h st (buffer @ text) of (st', buffer') \<Rightarrow>
           read_loop h st' td' buffer' rest))"

text \<open>\<^verbatim>\<open>`Error: ${e?.message || e}`\<close>: the message, or the error's name when it is empty.\<close>

definition error_text :: "js_error \<Rightarrow> jsstring" where
  "error_text e = js ''Error: '' @ (if message e \<noteq> [] then message e else name e)"

text \<open>
  The outer \<^verbatim>\<open>catch (e)\<close>: one assistant message that reports the failure. The
  text of an \<^verbatim>\<open>Error\<close> always converts, so the function passed to
  \<^verbatim>\<open>setMessages\<close> cannot throw.
\<close>

definition catch_error :: "app_state \<Rightarrow> js_error \<Rightarrow> app_state" where
  "catch_error st e =
     setMessages st (\<lambda>m. Some (m @ [\<lparr>role = Assistant, content = error_text e\<rparr>]))"

definition sendMessage :: "number_text \<Rightarrow> app_state \<Rightarrow> response \<Rightarrow> app_state" where
  "sendMessage nt st res =
     (if trim (input st) = [] then st
      else
        (let nextMessages = messages st @ [\<lparr>role = User, content = input st\<rparr>];
             st1 = st\<lparr>messages := nextMessages, input := [], loading := True\<rparr>;
             st2 = st1\<lparr>current := Some (JString (js ''Queued''))\<rparr>;
             (st3, thrown) =
               (case res of
                  FetchRejected e \<Rightarrow> (st2, Some e)
                | Response None \<Rightarrow> (st2, Some \<lparr>name = js ''Error'', message = js ''No stream''\<rparr>)
                | Response (Some reader) \<Rightarrow>
                    read_loop (process_line nt) st2 new_TextDecoder [] reader);
             st4 = (case thrown of None \<Rightarrow> st3 | Some e \<Rightarrow> catch_error st3 e)
         in st4\<lparr>loading := False\<rparr>))"

section \<open>Observations of a cycle\<close>

text \<open>A stream that delivers the given chunks and then goes on as \<open>e\<close>.\<close>

fun chunks :: "byte list list \<Rightarrow> body \<Rightarrow> body" where
  "chunks [] e = e"
| "chunks (c # cs) e = Value c (chunks cs e)"

text \<open>The lines that the loop hands to its handler, in order: the loop run with a
  handler that records each line.\<close>

definition collect :: "jsstring list \<Rightarrow> jsstring \<Rightarrow> jsstring list" where
  "collect ls line = ls @ [line]"

definition decoded_lines :: "body \<Rightarrow> jsstring list" where
  "decoded_lines b = fst (read_loop collect [] new_TextDecoder [] b)"

text \<open>The rejection that ends the stream, if it ends so.\<close>

fun rejected :: "body \<Rightarrow> js_error option" where
  "rejected Done = None"
| "rejected (Rejected e) = Some e"
| "rejected (Value v rest) = rejected rest"

text \<open>All the text that the decoder returns for the chunks of a stream.\<close>

fun stream_text :: "TextDecoder \<Rightarrow> body \<Rightarrow> jsstring" where
  "stream_text td Done = []"
| "stream_text td (Rejected e) = []"
| "stream_text td (Value v rest) =
     (case decode_stream td v of (td', text) \<Rightarrow> text @ stream_text td' rest)"

text \<open>The exception that reaches the outer \<^verbatim>\<open>catch\<close>, and the lines of a response.\<close>

definition thrown_by :: "response \<Rightarrow> js_error option" where
  "thrown_by res =
     (case res of
        FetchRejected e \<Rightarrow> Some e
      | Response None \<Rightarrow> Some \<lparr>name = js ''Error'', message = js ''No stream''\<rparr>
      | Response (Some reader) \<Rightarrow> rejected reader)"

definition response_lines :: "response \<Rightarrow> jsstring list" where
  "response_lines res =
     (case res of Response (Some reader) \<Rightarrow> decoded_lines reader | _ \<Rightarrow> [])"

text \<open>
  A line that carries a terminal event: valid JSON whose \<^verbatim>\<open>type\<close> is
  \<^verbatim>\<open>final\<close> or \<^verbatim>\<open>error\<close>.
\<close>

definition terminal_line :: "jsstring \<Rightarrow> bool" where
  "terminal_line line =
     (case JSON_parse line of
        None \<Rightarrow> False
      | Some evt \<Rightarrow>
          is_text (property evt ''type'') ''final'' \<or> is_text (property evt ''type'') ''error'')"

text \<open>The UTF-8 bytes of an ASCII text.\<close>

definition ascii :: "string \<Rightarrow> byte list" where
  "ascii s = map (\<lambda>c. of_nat (of_char c)) s"

text \<open>The content of the message that a \<^verbatim>\<open>final\<close> event appends.\<close>

definition final_content :: "number_text \<Rightarrow> json \<Rightarrow> jsstring" where
  "final_content nt evt =
     (case property evt ''message'' of
        None \<Rightarrow> []
      | Some (JString s) \<Rightarrow> s
      | Some v \<Rightarrow> JSON_stringify nt v)"

section \<open>Scenario inputs\<close>

text \<open>The lines of the scenarios, as the server writes them.\<close>

definition line_registry_loaded :: jsstring where
  \<open>line_registry_loaded = js ''{"type":"stage","stage":"registry_loaded"}''\<close>

definition line_tool_call :: jsstring where
  \<open>line_tool_call = js ''{"type":"tool_call","name":"search"}''\<close>

definition line_tool_result :: jsstring where
  \<open>line_tool_result = js ''{"type":"tool_result","name":"search"}''\<close>

definition line_final :: jsstring where
  \<open>line_final = js ''{"type":"final","message":"Paris is the capital."}''\<close>

definition line_error :: jsstring where
  \<open>line_error = js ''{"type":"error","error":"rate limited"}''\<close>

definition line_turn1 :: jsstring where
  \<open>line_turn1 = js ''{"type":"stage","stage":"model_invoked","turn":1}''\<close>

definition line_turn2 :: jsstring where
  \<open>line_turn2 = js ''{"type":"stage","stage":"model_invoked","turn":2}''\<close>

section \<open>Sample inputs\<close>

text \<open>
  The state of \<^verbatim>\<open>App\<close> after the user has typed \<^verbatim>\<open>hi\<close>, and a printing of
  numbers as they were written, for the examples: none of their numbers is other
  than a small integer, so none reaches it.
\<close>

definition typed_hi :: app_state where
  "typed_hi =
     \<lparr>messages = [], input = js ''hi'', loading = False, current = Some (JString []),
      console = [], render_error = False\<rparr>"

definition as_written :: number_text where
  "as_written n = Some n"


definition stage_only :: body where
  \<open>stage_only = chunks [ascii ''{"type":"stage","stage":"registry_loaded"}\<newline>''] Done\<close>

definition stage_then_reset :: body where
  \<open>stage_then_reset =
     chunks [ascii ''{"type":"stage","stage":"registry_loaded"}\<newline>'']
       (Rejected \<lparr>name = js ''TypeError'', message = js ''network error''\<rparr>)\<close>




definition line_garbage :: jsstring where
  \<open>line_garbage = js ''{"type":"final","message":''\<close>

definition line_final_object :: jsstring where
  \<open>line_final_object =
     js ''{"type":"final","message":{"answer":"Paris","sources":[1,2],"b":{"10":true,"9":null}}}''\<close>

text \<open>
  A stream whose \<^verbatim>\<open>final\<close> line is cut inside the two bytes of \<^verbatim>\<open>U+00E9\<close>, and two
  streams that differ by an unterminated \<^verbatim>\<open>error\<close> line at the end.
\<close>

definition split_cafe :: "byte list list" where
  \<open>split_cafe =
     [ascii ''{"type":"final","message":"caf'' @ [0xC3], [0xA9] @ ascii ''"}\<newline>'']\<close>

definition final_ok :: body where
  \<open>final_ok = chunks [ascii ''{"type":"final","message":"ok"}\<newline>''] Done\<close>

definition final_ok_then_partial :: body where
  \<open>final_ok_then_partial =
     chunks [ascii ''{"type":"final","message":"ok"}\<newline>{"type":"err'',
             ascii ''or","error":"late"}''] Done\<close>

text \<open>The two scenarios as streams of one chunk each.\<close>

definition scenario_stream :: body where
  \<open>scenario_stream =
     chunks [ascii ''{"type":"stage","stage":"registry_loaded"}\<newline>{"type":"tool_call","name":"search"}\<newline>{"type":"tool_result","name":"search"}\<newline>{"type":"final","message":"Paris is the capital."}\<newline>''] Done\<close>

definition error_stream :: body where
  \<open>error_stream = chunks [ascii ''{"type":"error","error":"rate limited"}\<newline>''] Done\<close>

section \<open>Properties of the line loop and of the decoder\<close>

lemma indexOf_neg_iff: "indexOf s c < 0 \<longleftrightarrow> c \<notin> set s"
  by (induction s) (auto simp: Let_def)

lemma indexOf_notin: "c \<notin> set s \<Longrightarrow> indexOf s c = -1"
  by (induction s) (auto simp: Let_def)

lemma indexOf_takeWhile: "c \<in> set s \<Longrightarrow> indexOf s c = int (length (takeWhile (\<lambda>x. x \<noteq> c) s))"
  by (induction s) (auto simp: Let_def)

lemma indexOf_append: "c \<in> set a \<Longrightarrow> indexOf (a @ b) c = indexOf a c"
  by (induction a) (auto simp: Let_def indexOf_neg_iff)

lemma drain_no_LF: "LF \<notin> set b \<Longrightarrow> drain h st b = (st, b)"
  by (subst drain.simps) (simp add: indexOf_notin)

lemma drain_LF:
  assumes "LF \<in> set b"
  shows "drain h st b =
     (let line = trim (slice_to b (indexOf b LF)); b' = slice_from b (indexOf b LF + 1)
      in if line = [] then drain h st b' else drain h (h st line) b')"
proof -
  from assms have "0 \<le> indexOf b LF" using indexOf_neg_iff [of b LF] by simp
  then show ?thesis by (subst drain.simps) (simp add: Let_def)
qed

lemma slice_to_append: "c \<in> set a \<Longrightarrow> slice_to (a @ b) (indexOf a c) = slice_to a (indexOf a c)"
  using indexOf_less [of a c] indexOf_neg_iff [of a c] by (simp add: slice_to_def)

lemma slice_from_append:
  "c \<in> set a \<Longrightarrow> slice_from (a @ b) (indexOf a c + 1) = slice_from a (indexOf a c + 1) @ b"
  using indexOf_less [of a c] indexOf_neg_iff [of a c] by (simp add: slice_from_def nat_add_distrib)

lemma drain_remainder: "LF \<notin> set (snd (drain h st b))"
proof (induction h st b rule: drain.induct)
  case (1 h st buffer)
  show ?case
  proof (cases "LF \<in> set buffer")
    case True
    then have "0 \<le> indexOf buffer LF" using indexOf_neg_iff [of buffer LF] by simp
    with 1 True show ?thesis by (subst drain.simps) (simp add: Let_def)
  next
    case False
    then show ?thesis by (simp add: drain_no_LF)
  qed
qed

lemma drain_append:
  "drain h st (b @ t) = (case drain h st b of (st1, r) \<Rightarrow> drain h st1 (r @ t))"
proof (induction h st b rule: drain.induct)
  case (1 h st buffer)
  show ?case
  proof (cases "LF \<in> set buffer")
    case True
    define idx where "idx = indexOf buffer LF"
    define line where "line = trim (slice_to buffer idx)"
    define b' where "b' = slice_from buffer (idx + 1)"
    have ge: "0 \<le> idx" using True indexOf_neg_iff [of buffer LF] by (simp add: idx_def)
    have in2: "LF \<in> set (buffer @ t)" using True by simp
    have L: "drain h st (buffer @ t) =
        (if line = [] then drain h st (b' @ t) else drain h (h st line) (b' @ t))"
      using True
      by (simp add: drain_LF [OF in2] indexOf_append slice_to_append slice_from_append
          Let_def idx_def line_def b'_def)
    have R: "drain h st buffer = (if line = [] then drain h st b' else drain h (h st line) b')"
      by (simp add: drain_LF [OF True] Let_def idx_def line_def b'_def)
    show ?thesis
    proof (cases "line = []")
      case e: True
      with 1(1) [OF idx_def ge line_def b'_def] L R show ?thesis by simp
    next
      case ne: False
      with 1(2) [OF idx_def ge line_def b'_def] L R show ?thesis by simp
    qed
  next
    case False
    then show ?thesis by (simp add: drain_no_LF)
  qed
qed

lemma drain_collect:
  "drain collect acc b = (acc @ fst (drain collect [] b), snd (drain collect [] b))"
proof (induction "length b" arbitrary: b acc rule: less_induct)
  case less
  show ?case
  proof (cases "LF \<in> set b")
    case True
    define idx where "idx = indexOf b LF"
    define line where "line = trim (slice_to b idx)"
    define b' where "b' = slice_from b (idx + 1)"
    have "0 \<le> idx" using True indexOf_neg_iff [of b LF] by (simp add: idx_def)
    then have len: "length b' < length b"
      using indexOf_less [of b LF] by (simp add: b'_def idx_def slice_from_def)
    have step: "drain collect a b =
        (if line = [] then drain collect a b' else drain collect (a @ [line]) b')" for a
      by (simp add: drain_LF [OF True] Let_def idx_def line_def b'_def collect_def)
    show ?thesis
      using less [OF len, of acc] less [OF len, of "acc @ [line]"] less [OF len, of "[line]"]
      by (simp add: step)
  next
    case False
    then show ?thesis by (simp add: drain_no_LF)
  qed
qed

lemma drain_fold:
  "drain h st b = (foldl h st (fst (drain collect [] b)), snd (drain collect [] b))"
proof (induction h st b rule: drain.induct)
  case (1 h st buffer)
  show ?case
  proof (cases "LF \<in> set buffer")
    case True
    define idx where "idx = indexOf buffer LF"
    define line where "line = trim (slice_to buffer idx)"
    define b' where "b' = slice_from buffer (idx + 1)"
    have ge: "0 \<le> idx" using True indexOf_neg_iff [of buffer LF] by (simp add: idx_def)
    have step: "drain g a buffer =
        (if line = [] then drain g a b' else drain g (g a line) b')" for g :: "'b \<Rightarrow> jsstring \<Rightarrow> 'b" and a
      by (simp add: drain_LF [OF True] Let_def idx_def line_def b'_def)
    show ?thesis
    proof (cases "line = []")
      case e: True
      with 1(1) [OF idx_def ge line_def b'_def] show ?thesis by (simp add: step)
    next
      case ne: False
      have "drain collect [] buffer = drain collect [line] b'"
        using ne by (simp add: step collect_def)
      also have "\<dots> = ([line] @ fst (drain collect [] b'), snd (drain collect [] b'))"
        by (rule drain_collect)
      finally show ?thesis
        using 1(2) [OF idx_def ge line_def b'_def] ne by (simp add: step [of h])
    qed
  next
    case False
    then show ?thesis by (simp add: drain_no_LF)
  qed
qed

lemma utf8_run_append:
  "utf8_run d (a @ b) =
     (case utf8_run d a of (d1, o1) \<Rightarrow> case utf8_run d1 b of (d2, o2) \<Rightarrow> (d2, o1 @ o2))"
  by (induction a arbitrary: d) (auto split: prod.splits)

lemma serialize_append:
  "serialize seen (a @ b) =
     (case serialize seen a of (s1, t1) \<Rightarrow> case serialize s1 b of (s2, t2) \<Rightarrow> (s2, t1 @ t2))"
  by (induction a arbitrary: seen) (auto split: prod.splits)

lemma decode_stream_flag: "do_not_flush (fst (decode_stream td v))"
  by (simp add: decode_stream_def Let_def split: prod.splits)

lemma decode_stream_append:
  "decode_stream td (a @ b) =
     (case decode_stream td a of (td1, t1) \<Rightarrow>
        case decode_stream td1 b of (td2, t2) \<Rightarrow> (td2, t1 @ t2))"
proof -
  define td0 where "td0 = (if do_not_flush td then td
                 else td\<lparr>decoder := utf8_initial, BOM_seen := False\<rparr>)"
  obtain d1 o1 where r1: "utf8_run (decoder td0) a = (d1, o1)" by (cases "utf8_run (decoder td0) a")
  obtain d2 o2 where r2: "utf8_run d1 b = (d2, o2)" by (cases "utf8_run d1 b")
  obtain s1 t1 where s1: "serialize (BOM_seen td0) o1 = (s1, t1)"
    by (cases "serialize (BOM_seen td0) o1")
  obtain s2 t2 where s2: "serialize s1 o2 = (s2, t2)" by (cases "serialize s1 o2")
  have A: "decode_stream td a = (\<lparr>decoder = d1, BOM_seen = s1, do_not_flush = True\<rparr>, t1)"
    using r1 s1 by (simp add: decode_stream_def td0_def [symmetric])
  have B: "decode_stream \<lparr>decoder = d1, BOM_seen = s1, do_not_flush = True\<rparr> b =
      (\<lparr>decoder = d2, BOM_seen = s2, do_not_flush = True\<rparr>, t2)"
    using r2 s2 by (simp add: decode_stream_def)
  have C: "decode_stream td (a @ b) = (\<lparr>decoder = d2, BOM_seen = s2, do_not_flush = True\<rparr>, t1 @ t2)"
    using r1 r2 s1 s2
    by (simp add: decode_stream_def td0_def [symmetric] utf8_run_append serialize_append)
  show ?thesis by (simp add: A B C)
qed

lemma decode_stream_Nil_again:
  "decode_stream (fst (decode_stream td [])) v = decode_stream td v"
  by (simp add: decode_stream_def Let_def split: prod.splits)

lemma decode_stream_Nil_text: "snd (decode_stream td []) = []"
  by (simp add: decode_stream_def Let_def split: prod.splits)

lemma read_loop_decoder_Nil:
  "read_loop h st (fst (decode_stream td [])) buf b = read_loop h st td buf b"
  by (cases b) (simp_all add: decode_stream_Nil_again)

lemma read_loop_rejected: "snd (read_loop h st td buf b) = rejected b"
  by (induction b arbitrary: st td buf) (auto split: prod.splits)

lemma read_loop_text:
  "LF \<notin> set buf \<Longrightarrow>
   read_loop h st td buf b = (fst (drain h st (buf @ stream_text td b)), rejected b)"
proof (induction b arbitrary: st td buf)
  case Done
  then show ?case by (simp add: drain_no_LF)
next
  case (Value v rest)
  obtain td' t where d: "decode_stream td v = (td', t)" by (cases "decode_stream td v")
  obtain st' buf' where dr: "drain h st (buf @ t) = (st', buf')"
    by (cases "drain h st (buf @ t)")
  have nl: "LF \<notin> set buf'" using drain_remainder [of h st "buf @ t"] dr by simp
  have "drain h st ((buf @ t) @ stream_text td' rest) = drain h st' (buf' @ stream_text td' rest)"
    by (simp only: drain_append [of h st "buf @ t"] dr prod.case)
  with Value.IH [OF nl, of st' td'] d dr show ?case by simp
next
  case (Rejected e)
  then show ?case by (simp add: drain_no_LF)
qed

lemma stream_text_chunks:
  "stream_text td (chunks cs e) = stream_text td (Value (concat cs) e)"
proof (induction cs arbitrary: td)
  case Nil
  obtain td' t where d: "decode_stream td [] = (td', t)" by (cases "decode_stream td []")
  have "stream_text (fst (decode_stream td [])) e = stream_text td e"
    by (cases e) (simp_all add: decode_stream_Nil_again)
  then show ?case
    using decode_stream_Nil_text [of td] d by simp
next
  case (Cons c cs)
  then show ?case
    by (simp add: decode_stream_append split: prod.splits)
qed

lemma rejected_chunks: "rejected (chunks cs e) = rejected e"
  by (induction cs) simp_all

lemma read_loop_chunks:
  "read_loop h st new_TextDecoder [] (chunks cs e) =
   read_loop h st new_TextDecoder [] (chunks [concat cs] e)"
  by (simp only: read_loop_text [of "[]", simplified] stream_text_chunks rejected_chunks
      chunks.simps rejected.simps)

section \<open>Properties of the event handler and of a cycle\<close>

lemma is_text_JNull [simp]: "\<not> is_text (property JNull k) s"
  by (simp add: is_text_def property_def)

lemma type_final_distinct:
  "is_text v ''final'' \<Longrightarrow>
     \<not> is_text v ''stage'' \<and> \<not> is_text v ''tool_call'' \<and> \<not> is_text v ''tool_result''"
  by (auto simp: is_text_def js_def)


lemma handle_event_final:
  assumes "is_text (property evt ''type'') ''final''"
  shows "handle_event nt st evt =
     Some (st\<lparr>messages := messages st @ [\<lparr>role = Assistant, content = final_content nt evt\<rparr>],
              current := Some (JString (js ''Completed''))\<rparr>)"
proof -
  from assms have ne: "evt \<noteq> JNull" by auto
  show ?thesis
    using assms ne type_final_distinct [OF assms]
    by (simp add: handle_event_def final_content_def setMessages_def setCurrent_def Let_def
        split: option.splits json.splits)
qed


lemma handle_event_other:
  assumes "\<not> is_text (property evt ''type'') ''final''"
    and "\<not> is_text (property evt ''type'') ''error''"
    and "handle_event nt st evt = Some st'"
  shows "messages st' = messages st \<and> render_error st' = render_error st \<and>
         console st' = console st \<and> input st' = input st \<and> loading st' = loading st"
  using assms
  by (auto simp: handle_event_def setCurrent_def split: if_splits option.splits)


lemma process_line_quiet:
  assumes "\<not> terminal_line line"
  shows "messages (process_line nt st line) = messages st \<and>
         render_error (process_line nt st line) = render_error st"
proof (cases "JSON_parse line")
  case None
  then show ?thesis by (simp add: process_line_def)
next
  case (Some evt)
  with assms have a: "\<not> is_text (property evt ''type'') ''final''"
    and b: "\<not> is_text (property evt ''type'') ''error''"
    by (auto simp: terminal_line_def)
  show ?thesis
  proof (cases "handle_event nt st evt")
    case None
    with Some show ?thesis by (simp add: process_line_def)
  next
    case (Some st')
    with handle_event_other [OF a b Some] \<open>JSON_parse line = Some evt\<close> show ?thesis
      by (simp add: process_line_def)
  qed
qed





lemma foldl_process_quiet:
  "filter terminal_line ls = [] \<Longrightarrow>
     messages (foldl (process_line nt) st ls) = messages st \<and>
     render_error (foldl (process_line nt) st ls) = render_error st"
  by (induction ls arbitrary: st) (auto simp: process_line_quiet split: if_splits)

lemma read_loop_lines:
  "read_loop h st new_TextDecoder [] b = (foldl h st (decoded_lines b), rejected b)"
proof -
  have "read_loop h st new_TextDecoder [] b =
      (fst (drain h st (stream_text new_TextDecoder b)), rejected b)"
    using read_loop_text [of "[]" h st new_TextDecoder b] by simp
  moreover have "decoded_lines b = fst (drain collect [] (stream_text new_TextDecoder b))"
    using read_loop_text [of "[]" collect "[]" new_TextDecoder b] by (simp add: decoded_lines_def)
  ultimately show ?thesis
    using drain_fold [of h st "stream_text new_TextDecoder b"] by simp
qed

lemma sendMessage_unfold:
  assumes "trim (input st) \<noteq> []"
  shows "sendMessage nt st res =
     (let st2 = st\<lparr>messages := messages st @ [\<lparr>role = User, content = input st\<rparr>],
                    input := [], loading := True, current := Some (JString (js ''Queued''))\<rparr>;
          st3 = foldl (process_line nt) st2 (response_lines res)
      in (case thrown_by res of None \<Rightarrow> st3 | Some e \<Rightarrow> catch_error st3 e)\<lparr>loading := False\<rparr>)"
proof (cases res)
  case (FetchRejected e)
  with assms show ?thesis
    by (simp add: sendMessage_def thrown_by_def response_lines_def Let_def)
next
  case (Response ob)
  show ?thesis
  proof (cases ob)
    case None
    with Response assms show ?thesis
      by (simp add: sendMessage_def thrown_by_def response_lines_def Let_def)
  next
    case (Some b)
    with Response assms show ?thesis
      by (simp add: sendMessage_def thrown_by_def response_lines_def Let_def read_loop_lines)
  qed
qed

section \<open>The scenario lines, evaluated\<close>

lemma process_registry_loaded:
  "process_line nt st line_registry_loaded =
     st\<lparr>current := Some (JString (js ''Loaded tool registry''))\<rparr>"
  by code_simp

lemma process_tool_call:
  "process_line nt st line_tool_call = st\<lparr>current := Some (JString (js ''Calling search''))\<rparr>"
  by code_simp

lemma process_tool_result:
  "process_line nt st line_tool_result = st\<lparr>current := Some (JString (js ''search done''))\<rparr>"
  by code_simp

lemma process_final:
  "process_line nt st line_final =
     st\<lparr>messages := messages st @ [\<lparr>role = Assistant, content = js ''Paris is the capital.''\<rparr>],
        current := Some (JString (js ''Completed''))\<rparr>"
  by code_simp

lemma process_error:
  "process_line nt st line_error =
     st\<lparr>messages := messages st @ [\<lparr>role = Assistant, content = js ''Error: rate limited''\<rparr>],
        current := Some (JString (js ''Error''))\<rparr>"
  by code_simp

lemma process_turn1:
  "process_line nt st line_turn1 =
     st\<lparr>current := Some (JString (js ''Invoking model (turn 1)''))\<rparr>"
  by code_simp

lemma process_turn2:
  "process_line nt st line_turn2 =
     st\<lparr>current := Some (JString (js ''Invoking model (turn 2)''))\<rparr>"
  by code_simp

lemma drain_scenario_lines:
  "drain h st
     (line_registry_loaded @ [LF] @ line_tool_call @ [LF] @ line_tool_result @ [LF] @
      line_final @ [LF]) =
   (foldl h st [line_registry_loaded, line_tool_call, line_tool_result, line_final], [])"
proof -
  have "drain collect []
     (line_registry_loaded @ [LF] @ line_tool_call @ [LF] @ line_tool_result @ [LF] @
      line_final @ [LF]) =
    ([line_registry_loaded, line_tool_call, line_tool_result, line_final], [])"
    by code_simp
  then show ?thesis by (subst drain_fold) simp
qed

lemma scenario_stream_lines:
  "decoded_lines scenario_stream =
     [line_registry_loaded, line_tool_call, line_tool_result, line_final]"
  by code_simp

lemma scenario_stream_cycle:
  "sendMessage nt typed_hi (Response (Some scenario_stream)) =
     \<lparr>messages = [\<lparr>role = User, content = js ''hi''\<rparr>,
                  \<lparr>role = Assistant, content = js ''Paris is the capital.''\<rparr>],
      input = [], loading = False, current = Some (JString (js ''Completed'')),
      console = [], render_error = False\<rparr>"
  by code_simp

lemma error_stream_cycle:
  "decoded_lines error_stream = [line_error] \<and>
   sendMessage nt typed_hi (Response (Some error_stream)) =
     \<lparr>messages = [\<lparr>role = User, content = js ''hi''\<rparr>,
                  \<lparr>role = Assistant, content = js ''Error: rate limited''\<rparr>],
      input = [], loading = False, current = Some (JString (js ''Error'')),
      console = [], render_error = False\<rparr>"
  by code_simp

section \<open>Further properties of the loop\<close>

lemma drain_remainder_dropped:
  assumes "LF \<notin> set r"
  shows "fst (drain h st (t @ r)) = fst (drain h st t)"
proof -
  obtain st1 r1 where d: "drain h st t = (st1, r1)" by (cases "drain h st t")
  have "LF \<notin> set r1" using drain_remainder [of h st t] d by simp
  with assms have e: "drain h st1 (r1 @ r) = (st1, r1 @ r)" by (simp add: drain_no_LF)
  have "drain h st (t @ r) = drain h st1 (r1 @ r)"
    by (simp only: drain_append [of h st t r] d prod.case)
  with e d show ?thesis by simp
qed

lemma read_loop_remainder_dropped:
  assumes "stream_text new_TextDecoder b2 = stream_text new_TextDecoder b1 @ r"
    and "LF \<notin> set r"
    and "rejected b2 = rejected b1"
  shows "read_loop h s new_TextDecoder [] b2 = read_loop h s new_TextDecoder [] b1"
proof -
  have t1: "read_loop h s new_TextDecoder [] b1 =
      (fst (drain h s (stream_text new_TextDecoder b1)), rejected b1)"
    using read_loop_text [of "[]" h s new_TextDecoder b1] by simp
  have t2: "read_loop h s new_TextDecoder [] b2 =
      (fst (drain h s (stream_text new_TextDecoder b2)), rejected b2)"
    using read_loop_text [of "[]" h s new_TextDecoder b2] by simp
  have "fst (drain h s (stream_text new_TextDecoder b1 @ r)) =
      fst (drain h s (stream_text new_TextDecoder b1))"
    by (rule drain_remainder_dropped [OF assms(2)])
  then show ?thesis by (simp only: t1 t2 assms(1) assms(3))
qed

lemma JSON_parse_Nil: "JSON_parse [] = None"
  by (simp add: JSON_parse_def tokenize.simps)

lemma indexOf_line: "c \<notin> set x \<Longrightarrow> indexOf (x @ c # y) c = int (length x)"
  by (induction x) (auto simp: Let_def)

lemma drain_line:
  assumes "LF \<notin> set x"
  shows "drain h s (x @ LF # y) =
     (if trim x = [] then drain h s y else drain h (h s (trim x)) y)"
proof -
  have i: "indexOf (x @ LF # y) LF = int (length x)" by (rule indexOf_line [OF assms])
  have a: "slice_to (x @ LF # y) (int (length x)) = x" by (simp add: slice_to_def)
  have b: "slice_from (x @ LF # y) (int (length x) + 1) = y"
    by (simp add: slice_from_def nat_add_distrib)
  have "LF \<in> set (x @ LF # y)" by simp
  then have "drain h s (x @ LF # y) =
     (let line = trim (slice_to (x @ LF # y) (indexOf (x @ LF # y) LF));
          b' = slice_from (x @ LF # y) (indexOf (x @ LF # y) LF + 1)
      in if line = [] then drain h s b' else drain h (h s line) b')"
    by (rule drain_LF)
  then show ?thesis by (simp only: i a b Let_def)
qed

lemma drain_two_lines:
  assumes "LF \<notin> set a" and "LF \<notin> set b"
  shows "drain h st (a @ LF # b @ [LF]) =
     (let st1 = (if trim a = [] then st else h st (trim a))
      in (if trim b = [] then st1 else h st1 (trim b), []))"
proof -
  have "drain h s (b @ [LF]) = (if trim b = [] then s else h s (trim b), [])" for s
    using drain_line [OF assms(2), of h s "[]"] by (simp add: drain_no_LF)
  then show ?thesis
    by (simp add: drain_line [OF assms(1), of h st "b @ [LF]"] Let_def)
qed

lemma process_line_invalid:
  "JSON_parse line = None \<Longrightarrow> process_line nt st line = st\<lparr>console := console st @ [line]\<rparr>"
  by (simp add: process_line_def)

lemma process_line_final:
  assumes "JSON_parse line = Some evt" and "is_text (property evt ''type'') ''final''"
  shows "process_line nt st line =
     st\<lparr>messages := messages st @ [\<lparr>role = Assistant, content = final_content nt evt\<rparr>],
        current := Some (JString (js ''Completed''))\<rparr>"
  using assms by (simp add: process_line_def handle_event_final)

lemma stringify_object_not_raw: "JSON_stringify nt (JObject ms) \<noteq> js ''[object Object]''"
  by (simp add: js_def)

section \<open>The claims\<close>




text \<open>
  C2. Chunk-boundary invariance: however the bytes of a stream are cut into chunks, also
  inside a multi-byte character or inside a line, the loop hands over the same lines as
  when the bytes arrive as one chunk, and the cycle ends in the same state. (It holds
  for every byte sequence, well-formed or not, and whatever follows the chunks.)
\<close>

theorem chunk_boundary_invariance:
  "decoded_lines (chunks cs e) = decoded_lines (chunks [concat cs] e) \<and>
   sendMessage nt st (Response (Some (chunks cs e))) =
   sendMessage nt st (Response (Some (chunks [concat cs] e)))"
proof
  show "decoded_lines (chunks cs e) = decoded_lines (chunks [concat cs] e)"
    unfolding decoded_lines_def by (rule arg_cong [OF read_loop_chunks])
next
  have "read_loop (process_line nt) s new_TextDecoder [] (chunks cs e) =
      read_loop (process_line nt) s new_TextDecoder [] (chunks [concat cs] e)" for s
    by (rule read_loop_chunks)
  then show "sendMessage nt st (Response (Some (chunks cs e))) =
      sendMessage nt st (Response (Some (chunks [concat cs] e)))"
    by (simp only: sendMessage_def response.case option.case)
qed

text \<open>The stream that is cut inside a character gives the whole line and the whole reply.\<close>

theorem chunk_boundary_invariance_witness:
  \<open>\<forall>nt. decoded_lines (chunks split_cafe Done) =
       [js ''{"type":"final","message":"caf'' @ [0xE9] @ js ''"}''] \<and>
     messages (sendMessage nt typed_hi (Response (Some (chunks split_cafe Done)))) =
       [\<lparr>role = User, content = js ''hi''\<rparr>,
        \<lparr>role = Assistant, content = js ''caf'' @ [0xE9]\<rparr>]\<close>
proof
  fix nt
  have l: \<open>decoded_lines (chunks [concat split_cafe] Done) =
       [js ''{"type":"final","message":"caf'' @ [0xE9] @ js ''"}'']\<close>
    by code_simp
  have m: "messages (sendMessage nt typed_hi (Response (Some (chunks [concat split_cafe] Done)))) =
       [\<lparr>role = User, content = js ''hi''\<rparr>,
        \<lparr>role = Assistant, content = js ''caf'' @ [0xE9]\<rparr>]"
    by code_simp
  from chunk_boundary_invariance [of split_cafe Done nt typed_hi] l m
  show \<open>decoded_lines (chunks split_cafe Done) =
       [js ''{"type":"final","message":"caf'' @ [0xE9] @ js ''"}''] \<and>
     messages (sendMessage nt typed_hi (Response (Some (chunks split_cafe Done)))) =
       [\<lparr>role = User, content = js ''hi''\<rparr>,
        \<lparr>role = Assistant, content = js ''caf'' @ [0xE9]\<rparr>]\<close>
    by simp
qed

text \<open>
  C3, as stated, fails: when the reader reports the end of the stream the loop is left
  by \<^verbatim>\<open>break\<close> and nothing is appended. A stream that holds one \<^verbatim>\<open>stage\<close> line
  and then closes leaves the transcript with the user's message alone, and the status
  at the last label.
\<close>

theorem close_without_terminal_counterexample:
  "sendMessage as_written typed_hi (Response (Some stage_only)) =
     \<lparr>messages = [\<lparr>role = User, content = js ''hi''\<rparr>], input = [], loading = False,
      current = Some (JString (js ''Loaded tool registry'')), console = [],
      render_error = False\<rparr>"
  by code_simp

text \<open>
  C3, amended. In a cycle in which no terminal event is received, the transcript gains
  the user's message and, when the stream closes normally, nothing else; it gains
  exactly one failure message \<^verbatim>\<open>Error: ...\<close> with the failure's description when
  instead a read of the stream rejects. Either way the cycle ends with \<^verbatim>\<open>loading\<close>
  false. (The client has no cancel operation and no state named TransportError.)
\<close>

theorem close_without_terminal:
  assumes "trim (input st) \<noteq> []"
    and "filter terminal_line (decoded_lines b) = []"
  shows "messages (sendMessage nt st (Response (Some b))) =
     messages st @ [\<lparr>role = User, content = input st\<rparr>] @
     (case rejected b of
        None \<Rightarrow> []
      | Some e \<Rightarrow> [\<lparr>role = Assistant, content = error_text e\<rparr>]) \<and>
     loading (sendMessage nt st (Response (Some b))) = False \<and>
     render_error (sendMessage nt st (Response (Some b))) = render_error st"
  using assms
  by (auto simp: sendMessage_unfold Let_def foldl_process_quiet catch_error_def setMessages_def
      thrown_by_def response_lines_def split: option.splits)

text \<open>A stream that closes after a \<^verbatim>\<open>stage\<close> line, and one that is reset after it.\<close>

theorem close_without_terminal_witness:
  "\<forall>nt. messages (sendMessage nt typed_hi (Response (Some stage_only))) =
       [\<lparr>role = User, content = js ''hi''\<rparr>] \<and>
     messages (sendMessage nt typed_hi (Response (Some stage_then_reset))) =
       [\<lparr>role = User, content = js ''hi''\<rparr>,
        \<lparr>role = Assistant, content = js ''Error: network error''\<rparr>]"
proof
  fix nt
  have h: "trim (input typed_hi) \<noteq> []" by code_simp
  have q1: "filter terminal_line (decoded_lines stage_only) = []" by code_simp
  have q2: "filter terminal_line (decoded_lines stage_then_reset) = []" by code_simp
  have r1: "rejected stage_only = None" by code_simp
  have r2: "rejected stage_then_reset = Some \<lparr>name = js ''TypeError'', message = js ''network error''\<rparr>"
    by code_simp
  have e: "error_text \<lparr>name = js ''TypeError'', message = js ''network error''\<rparr> =
      js ''Error: network error''" by code_simp
  have m: "messages typed_hi = []" and i: "input typed_hi = js ''hi''" by code_simp+
  from conjunct1 [OF close_without_terminal [OF h q1, of nt]]
    conjunct1 [OF close_without_terminal [OF h q2, of nt]] r1 r2 e m i
  show "messages (sendMessage nt typed_hi (Response (Some stage_only))) =
       [\<lparr>role = User, content = js ''hi''\<rparr>] \<and>
     messages (sendMessage nt typed_hi (Response (Some stage_then_reset))) =
       [\<lparr>role = User, content = js ''hi''\<rparr>,
        \<lparr>role = Assistant, content = js ''Error: network error''\<rparr>]"
    by simp
qed

text \<open>
  C4. A line that is not valid JSON, followed by a valid \<^verbatim>\<open>final\<close> line: handling
  the invalid line changes neither the transcript nor the status, the loop goes on to
  the next line, and the result is the effect of the \<^verbatim>\<open>final\<close> event on the
  starting state (one assistant message, status "Completed"); the only trace of the
  invalid line is the note on the console.
\<close>

theorem invalid_line_then_final:
  assumes "JSON_parse (trim bad) = None"
    and "JSON_parse (trim fin) = Some evt"
    and "is_text (property evt ''type'') ''final''"
    and "LF \<notin> set bad" and "LF \<notin> set fin"
  shows "messages (process_line nt st (trim bad)) = messages st \<and>
     current (process_line nt st (trim bad)) = current st \<and>
     process_line nt st (trim fin) =
       st\<lparr>messages := messages st @ [\<lparr>role = Assistant, content = final_content nt evt\<rparr>],
          current := Some (JString (js ''Completed''))\<rparr> \<and>
     drain (process_line nt) st (bad @ [LF] @ fin @ [LF]) =
       ((process_line nt st (trim fin))
          \<lparr>console := console st @ (if trim bad = [] then [] else [trim bad])\<rparr>, [])"
proof -
  have ne: "trim fin \<noteq> []" using assms(2) JSON_parse_Nil by auto
  have d: "drain (process_line nt) st (bad @ LF # fin @ [LF]) =
     (let st1 = (if trim bad = [] then st else process_line nt st (trim bad))
      in (if trim fin = [] then st1 else process_line nt st1 (trim fin), []))"
    by (rule drain_two_lines [OF assms(4,5)])
  show ?thesis
    using ne d
    by (simp add: process_line_invalid [OF assms(1)] process_line_final [OF assms(2,3)] Let_def)
qed

text \<open>A line that is cut off in the middle, followed by the scenario's \<^verbatim>\<open>final\<close> line.\<close>

theorem invalid_line_then_final_witness:
  "\<forall>nt st. JSON_parse (trim line_garbage) = None \<and>
     drain (process_line nt) st (line_garbage @ [LF] @ line_final @ [LF]) =
       (st\<lparr>messages := messages st @
              [\<lparr>role = Assistant, content = js ''Paris is the capital.''\<rparr>],
           current := Some (JString (js ''Completed'')),
           console := console st @ [line_garbage]\<rparr>, [])"
proof (intro allI)
  fix nt st
  have a1: "JSON_parse (trim line_garbage) = None" by code_simp
  have a2: "JSON_parse (trim line_final) =
      Some (JObject [(js ''type'', JString (js ''final'')),
                     (js ''message'', JString (js ''Paris is the capital.''))])"
    by code_simp
  have a3: "is_text (property (JObject [(js ''type'', JString (js ''final'')),
                     (js ''message'', JString (js ''Paris is the capital.''))]) ''type'') ''final''"
    by code_simp
  have a4: "LF \<notin> set line_garbage" by code_simp
  have a5: "LF \<notin> set line_final" by code_simp
  have t1: "trim line_garbage = line_garbage" by code_simp
  have t2: "trim line_final = line_final" by code_simp
  have g: "line_garbage \<noteq> []" by code_simp
  from invalid_line_then_final [OF a1 a2 a3 a4 a5, of nt st] a1 t1 t2 g
  show "JSON_parse (trim line_garbage) = None \<and>
     drain (process_line nt) st (line_garbage @ [LF] @ line_final @ [LF]) =
       (st\<lparr>messages := messages st @
              [\<lparr>role = Assistant, content = js ''Paris is the capital.''\<rparr>],
           current := Some (JString (js ''Completed'')),
           console := console st @ [line_garbage]\<rparr>, [])"
    by (simp add: process_final)
qed

text \<open>
  C5. The four lines \<^verbatim>\<open>stage registry_loaded\<close>, \<^verbatim>\<open>tool_call search\<close>,
  \<^verbatim>\<open>tool_result search\<close>, \<^verbatim>\<open>final "Paris is the capital."\<close>, handled in this
  order from any state, set the status to "Loaded tool registry", "Calling search",
  "search done" and "Completed" in turn; the first three leave the transcript as it
  was and the fourth appends the one assistant message "Paris is the capital.". The
  line loop, given the four lines each ended by a line feed, ends in that state with an
  empty buffer; and a whole cycle that receives them as the bytes of one chunk, after
  the user typed \<^verbatim>\<open>hi\<close>, ends with the user's message, the one reply and the
  status "Completed".
\<close>

theorem scenario_status_sequence:
  "current (foldl (process_line nt) st [line_registry_loaded]) =
     Some (JString (js ''Loaded tool registry'')) \<and>
   current (foldl (process_line nt) st [line_registry_loaded, line_tool_call]) =
     Some (JString (js ''Calling search'')) \<and>
   current (foldl (process_line nt) st
       [line_registry_loaded, line_tool_call, line_tool_result]) =
     Some (JString (js ''search done'')) \<and>
   current (foldl (process_line nt) st
       [line_registry_loaded, line_tool_call, line_tool_result, line_final]) =
     Some (JString (js ''Completed'')) \<and>
   messages (foldl (process_line nt) st
       [line_registry_loaded, line_tool_call, line_tool_result]) = messages st \<and>
   messages (foldl (process_line nt) st
       [line_registry_loaded, line_tool_call, line_tool_result, line_final]) =
     messages st @ [\<lparr>role = Assistant, content = js ''Paris is the capital.''\<rparr>] \<and>
   drain (process_line nt) st
     (line_registry_loaded @ [LF] @ line_tool_call @ [LF] @ line_tool_result @ [LF] @
      line_final @ [LF]) =
     (st\<lparr>messages := messages st @
            [\<lparr>role = Assistant, content = js ''Paris is the capital.''\<rparr>],
         current := Some (JString (js ''Completed''))\<rparr>, []) \<and>
   decoded_lines scenario_stream =
     [line_registry_loaded, line_tool_call, line_tool_result, line_final] \<and>
   sendMessage nt typed_hi (Response (Some scenario_stream)) =
     \<lparr>messages = [\<lparr>role = User, content = js ''hi''\<rparr>,
                  \<lparr>role = Assistant, content = js ''Paris is the capital.''\<rparr>],
      input = [], loading = False, current = Some (JString (js ''Completed'')),
      console = [], render_error = False\<rparr>"
proof -
  have "drain (process_line nt) st
     (line_registry_loaded @ [LF] @ line_tool_call @ [LF] @ line_tool_result @ [LF] @
      line_final @ [LF]) =
    (foldl (process_line nt) st
       [line_registry_loaded, line_tool_call, line_tool_result, line_final], [])"
    by (rule drain_scenario_lines)
  then show ?thesis
    by (simp add: process_registry_loaded process_tool_call process_tool_result process_final
        scenario_stream_lines scenario_stream_cycle)
qed

text \<open>
  C6. A \<^verbatim>\<open>final\<close> event whose \<^verbatim>\<open>message\<close> is not a string appends an assistant
  message whose content is \<^verbatim>\<open>JSON.stringify\<close> of the message; for an object that is
  never the text \<^verbatim>\<open>[object Object]\<close> of a plain string conversion.
\<close>

theorem final_structured_message:
  assumes "JSON_parse line = Some evt"
    and "is_text (property evt ''type'') ''final''"
    and "property evt ''message'' = Some v"
    and "\<forall>s. v \<noteq> JString s"
  shows "process_line nt st line =
     st\<lparr>messages := messages st @ [\<lparr>role = Assistant, content = JSON_stringify nt v\<rparr>],
        current := Some (JString (js ''Completed''))\<rparr> \<and>
     (\<forall>ms. v = JObject ms \<longrightarrow> JSON_stringify nt v \<noteq> js ''[object Object]'')"
proof -
  from assms(3,4) have "final_content nt evt = JSON_stringify nt v"
    by (cases v) (simp_all add: final_content_def)
  with process_line_final [OF assms(1,2), of nt st] have A: "process_line nt st line =
     st\<lparr>messages := messages st @ [\<lparr>role = Assistant, content = JSON_stringify nt v\<rparr>],
        current := Some (JString (js ''Completed''))\<rparr>"
    by simp
  have B: "\<forall>ms. v = JObject ms \<longrightarrow> JSON_stringify nt v \<noteq> js ''[object Object]''"
    using stringify_object_not_raw by blast
  from A B show ?thesis by (rule conjI)
qed

text \<open>A \<^verbatim>\<open>final\<close> line that carries an object; its keys \<^verbatim>\<open>10\<close> and \<^verbatim>\<open>9\<close> are
  array indices and are serialised in ascending order.\<close>

theorem final_structured_message_witness:
  \<open>\<forall>nt st. process_line nt st line_final_object =
     st\<lparr>messages := messages st @
          [\<lparr>role = Assistant,
            content = js ''{"answer":"Paris","sources":[1,2],"b":{"9":null,"10":true}}''\<rparr>],
        current := Some (JString (js ''Completed''))\<rparr>\<close>
proof (intro allI)
  fix nt st
  define v where "v = JObject [(js ''answer'', JString (js ''Paris'')),
       (js ''sources'', JArray [JNumber (js ''1''), JNumber (js ''2'')]),
       (js ''b'', JObject [(js ''9'', JNull), (js ''10'', JBool True)])]"
  define evt where "evt = JObject [(js ''type'', JString (js ''final'')), (js ''message'', v)]"
  have a1: "JSON_parse line_final_object = Some evt" unfolding evt_def v_def by code_simp
  have a2: "is_text (property evt ''type'') ''final''" unfolding evt_def v_def by code_simp
  have a3: "property evt ''message'' = Some v" unfolding evt_def v_def by code_simp
  have a4: "\<forall>s. v \<noteq> JString s" by (simp add: v_def)
  have s: \<open>JSON_stringify nt v = js ''{"answer":"Paris","sources":[1,2],"b":{"9":null,"10":true}}''\<close>
    unfolding v_def by code_simp
  from conjunct1 [OF final_structured_message [OF a1 a2 a3 a4, of nt st]] s
  show \<open>process_line nt st line_final_object =
     st\<lparr>messages := messages st @
          [\<lparr>role = Assistant,
            content = js ''{"answer":"Paris","sources":[1,2],"b":{"9":null,"10":true}}''\<rparr>],
        current := Some (JString (js ''Completed''))\<rparr>\<close>
    by simp
qed

text \<open>
  C7. The line \<^verbatim>\<open>{"type":"error","error":"rate limited"}\<close> appends exactly one
  assistant message, "Error: rate limited", and sets the status to "Error"; the line
  loop, given the line and its line feed, does just that, and so does a whole cycle
  that receives the line as one chunk.
\<close>

theorem scenario_error_event:
  "process_line nt st line_error =
     st\<lparr>messages := messages st @ [\<lparr>role = Assistant, content = js ''Error: rate limited''\<rparr>],
        current := Some (JString (js ''Error''))\<rparr> \<and>
   drain (process_line nt) st (line_error @ [LF]) =
     (st\<lparr>messages := messages st @ [\<lparr>role = Assistant, content = js ''Error: rate limited''\<rparr>],
         current := Some (JString (js ''Error''))\<rparr>, []) \<and>
   sendMessage nt typed_hi (Response (Some error_stream)) =
     \<lparr>messages = [\<lparr>role = User, content = js ''hi''\<rparr>,
                  \<lparr>role = Assistant, content = js ''Error: rate limited''\<rparr>],
      input = [], loading = False, current = Some (JString (js ''Error'')),
      console = [], render_error = False\<rparr>"
proof -
  have "drain collect [] (line_error @ [LF]) = ([line_error], [])"
    by code_simp
  then have "drain (process_line nt) st (line_error @ [LF]) = (process_line nt st line_error, [])"
    by (subst drain_fold) simp
  then show ?thesis by (simp add: process_error error_stream_cycle)
qed

text \<open>
  C8. The status is overwritten, last write wins: after \<^verbatim>\<open>stage model_invoked turn 1\<close>
  the status is "Invoking model (turn 1)"; after \<^verbatim>\<open>stage model_invoked turn 2\<close> on top
  of it the state is the starting state with the status "Invoking model (turn 2)", the
  same state as when the first event had never arrived.
\<close>

theorem status_last_write_wins:
  "current (process_line nt st line_turn1) = Some (JString (js ''Invoking model (turn 1)'')) \<and>
   process_line nt (process_line nt st line_turn1) line_turn2 =
     st\<lparr>current := Some (JString (js ''Invoking model (turn 2)''))\<rparr> \<and>
   process_line nt (process_line nt st line_turn1) line_turn2 = process_line nt st line_turn2"
  by (simp add: process_turn1 process_turn2)

text \<open>
  C9. Text after the last line feed is discarded when the stream ends: if the text of
  one stream is the text of another followed by a remainder without a line feed, and
  both end the same way, then both hand over the same lines and both cycles end in the
  same state. The remainder is never a line and changes nothing.
\<close>

theorem unterminated_remainder_discarded:
  assumes "stream_text new_TextDecoder b2 = stream_text new_TextDecoder b1 @ r"
    and "LF \<notin> set r"
    and "rejected b2 = rejected b1"
  shows "decoded_lines b2 = decoded_lines b1 \<and>
     sendMessage nt st (Response (Some b2)) = sendMessage nt st (Response (Some b1))"
proof
  show "decoded_lines b2 = decoded_lines b1"
    unfolding decoded_lines_def by (rule arg_cong [OF read_loop_remainder_dropped [OF assms]])
next
  have "read_loop (process_line nt) s new_TextDecoder [] b2 =
      read_loop (process_line nt) s new_TextDecoder [] b1" for s
    by (rule read_loop_remainder_dropped [OF assms])
  then show "sendMessage nt st (Response (Some b2)) = sendMessage nt st (Response (Some b1))"
    by (simp only: sendMessage_def response.case option.case)
qed

text \<open>An \<^verbatim>\<open>error\<close> line without its line feed, spread over two chunks, changes nothing.\<close>

theorem unterminated_remainder_discarded_witness:
  \<open>\<forall>nt. stream_text new_TextDecoder final_ok_then_partial =
       stream_text new_TextDecoder final_ok @ js ''{"type":"error","error":"late"}'' \<and>
     decoded_lines final_ok_then_partial = [js ''{"type":"final","message":"ok"}''] \<and>
     sendMessage nt typed_hi (Response (Some final_ok_then_partial)) =
       \<lparr>messages = [\<lparr>role = User, content = js ''hi''\<rparr>,
                    \<lparr>role = Assistant, content = js ''ok''\<rparr>],
        input = [], loading = False, current = Some (JString (js ''Completed'')),
        console = [], render_error = False\<rparr>\<close>
proof
  fix nt
  have a1: \<open>stream_text new_TextDecoder final_ok_then_partial =
       stream_text new_TextDecoder final_ok @ js ''{"type":"error","error":"late"}''\<close>
    by code_simp
  have a2: \<open>LF \<notin> set (js ''{"type":"error","error":"late"}'')\<close> by code_simp
  have a3: "rejected final_ok_then_partial = rejected final_ok" by code_simp
  have l: \<open>decoded_lines final_ok = [js ''{"type":"final","message":"ok"}'']\<close> by code_simp
  have s: "sendMessage nt typed_hi (Response (Some final_ok)) =
       \<lparr>messages = [\<lparr>role = User, content = js ''hi''\<rparr>,
                    \<lparr>role = Assistant, content = js ''ok''\<rparr>],
        input = [], loading = False, current = Some (JString (js ''Completed'')),
        console = [], render_error = False\<rparr>"
    by code_simp
  from unterminated_remainder_discarded [OF a1 a2 a3, of nt typed_hi] a1 l s
  show \<open>stream_text new_TextDecoder final_ok_then_partial =
       stream_text new_TextDecoder final_ok @ js ''{"type":"error","error":"late"}'' \<and>
     decoded_lines final_ok_then_partial = [js ''{"type":"final","message":"ok"}''] \<and>
     sendMessage nt typed_hi (Response (Some final_ok_then_partial)) =
       \<lparr>messages = [\<lparr>role = User, content = js ''hi''\<rparr>,
                    \<lparr>role = Assistant, content = js ''ok''\<rparr>],
        input = [], loading = False, current = Some (JString (js ''Completed'')),
        console = [], render_error = False\<rparr>\<close>
    by simp
qed


end
